theory Spec2Isabelle
  imports Main "HOL-Library.Sublist"
begin

section \<open>The Living Library: a catalogue browser over a pandas table\<close>

text \<open>
  The repository holds two scripts, \<^verbatim>\<open>living_lib2.py\<close> (current) and
  \<^verbatim>\<open>legacy/living_lib.py\<close> (legacy). Both define a class \<^verbatim>\<open>LivingLibrary\<close> whose
  only attribute \<^verbatim>\<open>df\<close> is a pandas DataFrame read from a spreadsheet, and whose methods
  list, search and show its rows. This theory embeds the class of both scripts:
  the table is a list of rows, each method is a function of the object, every exception
  a method can let escape is a value, and what a method prints is the list of the
  strings it passes to \<^verbatim>\<open>print\<close>.

  Strings are ASCII texts: a \<^typ>\<open>char\<close> is one character, and the case conversions
  below act on the letters A to Z only.
\<close>

subsection \<open>Python strings\<close>

definition lower_char :: "char \<Rightarrow> char" where
  "lower_char c =
     (case map_of (zip ''ABCDEFGHIJKLMNOPQRSTUVWXYZ'' ''abcdefghijklmnopqrstuvwxyz'') c of
        Some d \<Rightarrow> d
      | None \<Rightarrow> c)"

text \<open>\<^verbatim>\<open>s.lower()\<close>\<close>

definition lower :: "string \<Rightarrow> string" where
  "lower s = map lower_char s"

text \<open>\<^verbatim>\<open>sep.join(xs)\<close>\<close>

fun join :: "string \<Rightarrow> string list \<Rightarrow> string" where
  "join sep [] = []"
| "join sep [x] = x"
| "join sep (x # y # ys) = x @ sep @ join sep (y # ys)"

text \<open>
  \<^verbatim>\<open>s.replace(old, new)\<close> for a non-empty \<^verbatim>\<open>old\<close>: the occurrences are found from
  the left and do not overlap. (Python gives an empty \<^verbatim>\<open>old\<close> a meaning of its own,
  which the program never uses; here an empty \<open>old\<close> leaves the string as it is.)
\<close>

function str_replace :: "string \<Rightarrow> string \<Rightarrow> string \<Rightarrow> string" where
  "str_replace old new [] = []"
| "str_replace old new (c # cs) =
     (if old \<noteq> [] \<and> prefix old (c # cs)
      then new @ str_replace old new (drop (length old) (c # cs))
      else c # str_replace old new cs)"
  by pat_completeness auto
termination
  by (relation "measure (\<lambda>(old, new, s). length s)") auto

text \<open>\<^verbatim>\<open>str(n)\<close> for an integer: decimal digits, a minus sign when negative.\<close>

fun str_nat :: "nat \<Rightarrow> string" where
  "str_nat n =
     (if n < 10 then [''0123456789'' ! n]
      else str_nat (n div 10) @ [''0123456789'' ! (n mod 10)])"

declare str_nat.simps [simp del]

definition str_int :: "int \<Rightarrow> string" where
  "str_int i = (if i < 0 then CHR ''-'' # str_nat (nat (- i)) else str_nat (nat i))"

text \<open>The format specification \<^verbatim>\<open>{n:3d}\<close>: right-aligned in a field of width three.\<close>

definition fmt_3d :: "int \<Rightarrow> string" where
  "fmt_3d i = replicate (3 - length (str_int i)) CHR '' '' @ str_int i"

subsection \<open>\<^verbatim>\<open>int(s)\<close> on a string\<close>

text \<open>
  Python skips white space at both ends, accepts one sign, then decimal digits, where
  single underscores may stand between digits; anything else raises \<^verbatim>\<open>ValueError\<close>
  (\<open>None\<close> here). The white space skipped is that of C's \<^verbatim>\<open>isspace\<close>: tab, line
  feed, vertical tab, form feed, carriage return and space; the separators
  \<^verbatim>\<open>0x1C\<close> to \<^verbatim>\<open>0x1F\<close> are not skipped.
\<close>

definition is_space :: "char \<Rightarrow> bool" where
  "is_space c \<longleftrightarrow> c \<in> set [CHR 0x09, CHR 0x0A, CHR 0x0B, CHR 0x0C, CHR 0x0D, CHR 0x20]"

text \<open>
  Before it parses, \<^verbatim>\<open>int\<close> turns every white-space character beyond ASCII into a
  space. Of the characters of this theory these are the next-line control \<^verbatim>\<open>0x85\<close>
  and the no-break space \<^verbatim>\<open>0xA0\<close>; every other character beyond ASCII is no digit
  and makes the conversion fail.
\<close>

definition space_to_ascii :: "char \<Rightarrow> char" where
  "space_to_ascii c = (if c \<in> set [CHR 0x85, CHR 0xA0] then CHR 0x20 else c)"

definition strip :: "string \<Rightarrow> string" where
  "strip s = rev (dropWhile is_space (rev (dropWhile is_space s)))"

definition is_digit :: "char \<Rightarrow> bool" where
  "is_digit c \<longleftrightarrow> c \<in> set ''0123456789''"

definition digit_val :: "char \<Rightarrow> nat" where
  "digit_val c = of_char c - 48"

fun digits_val :: "nat \<Rightarrow> string \<Rightarrow> nat option" where
  "digits_val acc [] = None"
| "digits_val acc [c] = (if is_digit c then Some (acc * 10 + digit_val c) else None)"
| "digits_val acc (c # d # cs) =
     (if \<not> is_digit c then None
      else if d = CHR ''_'' then
        (case cs of
           [] \<Rightarrow> None
         | e # _ \<Rightarrow> if is_digit e then digits_val (acc * 10 + digit_val c) cs else None)
      else digits_val (acc * 10 + digit_val c) (d # cs))"

text \<open>
  The interpreter limits the number of digits of a conversion
  (\<^verbatim>\<open>sys.get_int_max_str_digits()\<close>, 4300 unless configured otherwise): a string with
  more digits raises \<^verbatim>\<open>ValueError\<close> as a malformed one does.
\<close>

definition int_max_str_digits :: nat where
  "int_max_str_digits = 4300"

definition py_int :: "string \<Rightarrow> int option" where
  "py_int s =
     (case strip (map space_to_ascii s) of
        [] \<Rightarrow> None
      | c # cs \<Rightarrow>
          if length (filter is_digit (c # cs)) > int_max_str_digits then None
          else if c = CHR ''-'' then map_option (\<lambda>n. - int n) (digits_val 0 cs)
          else if c = CHR ''+'' then map_option int (digits_val 0 cs)
          else map_option int (digits_val 0 (c # cs)))"

subsection \<open>\<^verbatim>\<open>Path(p).suffix\<close>\<close>

text \<open>
  The components of a POSIX path are the pieces between slashes, empty pieces and
  single dots dropped; the name is the last component, and the suffix is the part of
  the name from its last dot on, when that dot is neither the first nor the last
  character of the name.
\<close>

fun split_slash :: "string \<Rightarrow> string list" where
  "split_slash [] = [[]]"
| "split_slash (c # cs) =
     (if c = CHR ''/'' then [] # split_slash cs
      else (case split_slash cs of
              [] \<Rightarrow> [[c]]
            | w # ws \<Rightarrow> (c # w) # ws))"

definition path_name :: "string \<Rightarrow> string" where
  "path_name p =
     (case filter (\<lambda>w. w \<noteq> [] \<and> w \<noteq> ''.'') (split_slash p) of
        [] \<Rightarrow> []
      | w # ws \<Rightarrow> last (w # ws))"

definition path_suffix :: "string \<Rightarrow> string" where
  "path_suffix p =
     (let name = path_name p;
          after = length (takeWhile (\<lambda>c. c \<noteq> CHR ''.'') (rev name))
      in if CHR ''.'' \<in> set name \<and> 0 < after \<and> Suc after < length name
         then drop (length name - Suc after) name
         else [])"

subsection \<open>Exceptions\<close>

text \<open>
  The exceptions of the program, each with its message. \<open>NotModelled\<close> is not a Python
  exception: it marks a run that leaves the part of pandas and of \<^verbatim>\<open>re\<close> that this
  theory describes, and nothing is claimed about such a run.
\<close>

datatype exn =
    ValueError string
  | AttributeError string
  | KeyError string
  | IndexError string
  | ReError string
  | ReadError string
  | NotModelled string

fun exn_message :: "exn \<Rightarrow> string" where
  "exn_message (ValueError m) = m"
| "exn_message (AttributeError m) = m"
| "exn_message (KeyError m) = m"
| "exn_message (IndexError m) = m"
| "exn_message (ReError m) = m"
| "exn_message (ReadError m) = m"
| "exn_message (NotModelled m) = m"

subsection \<open>Cells, rows and frames\<close>

text \<open>
  A cell of a table as pandas reads it: missing (\<open>NaN\<close>), a string, an integer, or a
  float. All the program does with a float is to print it, so a float is given by the
  text that \<^verbatim>\<open>str\<close> prints for it: \<open>FloatV ''1999.0''\<close> is the float
  \<^verbatim>\<open>1999.0\<close>, \<open>FloatV ''1e+16''\<close> the float \<^verbatim>\<open>1e16\<close>.
\<close>

datatype cell = NaN | StrV string | IntV int | FloatV string

text \<open>\<^verbatim>\<open>str(v)\<close>, which is also what an f-string prints for \<^verbatim>\<open>{v}\<close>.\<close>

fun py_str :: "cell \<Rightarrow> string" where
  "py_str NaN = ''nan''"
| "py_str (StrV s) = s"
| "py_str (IntV i) = str_int i"
| "py_str (FloatV t) = t"

fun is_str :: "cell \<Rightarrow> bool" where
  "is_str (StrV s) = True"
| "is_str c = False"

text \<open>\<^verbatim>\<open>fillna(v)\<close> on one cell, and \<^verbatim>\<open>pd.notna\<close>.\<close>

fun fillna :: "cell \<Rightarrow> cell \<Rightarrow> cell" where
  "fillna v NaN = v"
| "fillna v c = c"

fun notna :: "cell \<Rightarrow> bool" where
  "notna NaN = False"
| "notna c = True"

text \<open>
  One row of the spreadsheet, with the columns both scripts read. The column
  \<^verbatim>\<open>Free Download\<close> is optional: \<open>None\<close> when the table has no such column.
  The five author columns hold text: an author cell is a string, or missing
  (\<open>None\<close>). A table with numbers in its author columns is outside the model.
\<close>

record raw =
  Title :: cell
  Subtitle :: cell
  Author_1 :: "string option"
  Author_2 :: "string option"
  Author_3 :: "string option"
  Author_4 :: "string option"
  Author_5 :: "string option"
  Type :: cell
  Format :: cell
  Topic :: cell
  Publisher :: cell
  Year :: cell
  Free_Download :: "cell option"

text \<open>A row after loading: the columns \<^verbatim>\<open>ID\<close> and \<^verbatim>\<open>Authors\<close> are added.\<close>

record entry = raw +
  ID :: int
  Authors :: string

text \<open>
  The DataFrame held by the object: \<^verbatim>\<open>pd.DataFrame()\<close>, which has no columns at
  all, or a table with the columns above and any number of rows.
\<close>

datatype frame = NoColumns | Frame "entry list"

text \<open>\<^verbatim>\<open>df.empty\<close>\<close>

fun df_empty :: "frame \<Rightarrow> bool" where
  "df_empty NoColumns = True"
| "df_empty (Frame rows) = (rows = [])"

subsection \<open>Regular expressions, as far as they are needed\<close>

text \<open>
  \<^verbatim>\<open>Series.str.contains(pat, case=False, na=False)\<close> is called without
  \<^verbatim>\<open>regex=False\<close>, so pandas compiles \<open>pat\<close> with \<^verbatim>\<open>re.compile(pat, re.IGNORECASE)\<close>
  and tests each string with \<^verbatim>\<open>re.search\<close>. The characters below are the ones
  \<^verbatim>\<open>re\<close> treats as syntax; every other character stands for itself.
\<close>

definition re_special :: "char \<Rightarrow> bool" where
  "re_special c \<longleftrightarrow>
     c \<in> set [CHR ''.'', CHR ''^'', CHR ''$'', CHR ''*'', CHR ''+'', CHR ''?'',
              CHR ''{'', CHR ''}'', CHR ''['', CHR '']'', CHR 0x5C, CHR ''|'',
              CHR ''('', CHR '')'']"

text \<open>
  The fragment modelled: a pattern made of ordinary characters and dots compiles to a
  sequence of atoms; a pattern that starts with a repetition sign is rejected by
  \<^verbatim>\<open>re.compile\<close> (\<^verbatim>\<open>re.error\<close>: nothing to repeat); every other pattern is
  outside the fragment.
\<close>

datatype atom = Lit char | AnyChar

definition re_compile :: "string \<Rightarrow> exn + atom list" where
  "re_compile pat =
     (if pat \<noteq> [] \<and> hd pat \<in> set [CHR ''*'', CHR ''+'', CHR ''?'']
      then Inl (ReError ''nothing to repeat at position 0'')
      else if list_all (\<lambda>c. c = CHR ''.'' \<or> \<not> re_special c) pat
      then Inr (map (\<lambda>c. if c = CHR ''.'' then AnyChar else Lit c) pat)
      else Inl (NotModelled ''regular expression''))"

text \<open>
  Under \<^verbatim>\<open>re.IGNORECASE\<close> a literal matches a character that differs from it in
  case only; a dot matches any character but a newline.
\<close>

fun atom_match :: "atom \<Rightarrow> char \<Rightarrow> bool" where
  "atom_match (Lit c) d = (lower_char c = lower_char d)"
| "atom_match AnyChar d = (d \<noteq> CHR 0x0A)"

fun match_here :: "atom list \<Rightarrow> string \<Rightarrow> bool" where
  "match_here [] s = True"
| "match_here (a # as) [] = False"
| "match_here (a # as) (d # ds) = (atom_match a d \<and> match_here as ds)"

text \<open>\<^verbatim>\<open>re.search\<close>: a match that starts at some position of the string.\<close>

fun re_search :: "atom list \<Rightarrow> string \<Rightarrow> bool" where
  "re_search p [] = match_here p []"
| "re_search p (d # ds) = (match_here p (d # ds) \<or> re_search p ds)"

subsection \<open>The \<^verbatim>\<open>.str\<close> accessor\<close>

text \<open>
  A column that pandas read from a file has dtype \<^verbatim>\<open>object\<close> when it has no rows
  or holds at least one string, and a numeric dtype when it holds numbers and missing
  values only (so does a column in which every value is missing). The accessor
  \<^verbatim>\<open>.str\<close> raises \<^verbatim>\<open>AttributeError\<close> on a numeric column.
\<close>

definition str_accessor :: "cell list \<Rightarrow> exn + cell list" where
  "str_accessor col =
     (if col = [] \<or> list_ex is_str col then Inr col
      else Inl (AttributeError ''Can only use .str accessor with string values!''))"

text \<open>
  \<^verbatim>\<open>col.str.contains(pat, case=False, na=False)\<close>: a missing value, and any value
  that is not a string, gives \<open>False\<close>.
\<close>

fun cell_contains :: "atom list \<Rightarrow> cell \<Rightarrow> bool" where
  "cell_contains rx (StrV s) = re_search rx s"
| "cell_contains rx c = False"

definition str_contains :: "cell list \<Rightarrow> string \<Rightarrow> exn + bool list" where
  "str_contains col pat =
     (case str_accessor col of
        Inl e \<Rightarrow> Inl e
      | Inr c \<Rightarrow>
          (case re_compile pat of
             Inl e \<Rightarrow> Inl e
           | Inr rx \<Rightarrow> Inr (map (cell_contains rx) c)))"

text \<open>\<^verbatim>\<open>df[mask]\<close>: the rows at which the mask is true, in their order.\<close>

definition select :: "'a list \<Rightarrow> bool list \<Rightarrow> 'a list" where
  "select rows keep = map fst (filter snd (zip rows keep))"

subsection \<open>Loading (\<^verbatim>\<open>load_library_data\<close>)\<close>

text \<open>
  What \<^verbatim>\<open>pd.read_excel\<close> and \<^verbatim>\<open>pd.read_csv\<close> return for a path: the rows of the
  table, or the exception they raise.
\<close>

record files =
  read_excel :: "string \<Rightarrow> exn + raw list"
  read_csv :: "string \<Rightarrow> exn + raw list"

text \<open>
  \<^verbatim>\<open>df['Year'].fillna('Unknown').astype(str).str.replace('.0', '', regex=False)\<close>,
  on one cell.
\<close>

definition year_str :: "cell \<Rightarrow> string" where
  "year_str c = str_replace ''.0'' [] (py_str (fillna (StrV ''Unknown'') c))"

text \<open>
  \<^verbatim>\<open>df[author_cols].fillna('').apply(lambda x: ', '.join([str(val) for val in x
  if val != '' and str(val) != 'n/a']), axis=1)\<close>, on one row, followed by
  \<^verbatim>\<open>.replace('', 'Unknown')\<close>. After \<^verbatim>\<open>fillna('')\<close> every value of the row is a
  string, and \<^verbatim>\<open>str\<close> of a string is the string.
\<close>

definition author_cols :: "'a raw_scheme \<Rightarrow> string option list" where
  "author_cols r = [Author_1 r, Author_2 r, Author_3 r, Author_4 r, Author_5 r]"

definition fillna_text :: "string \<Rightarrow> string option \<Rightarrow> string" where
  "fillna_text v a = (case a of None \<Rightarrow> v | Some s \<Rightarrow> s)"

definition joined_authors :: "'a raw_scheme \<Rightarrow> string" where
  "joined_authors r =
     join '', ''
       (filter (\<lambda>val. val \<noteq> [] \<and> val \<noteq> ''n/a'')
         (map (fillna_text []) (author_cols r)))"

definition authors_str :: "'a raw_scheme \<Rightarrow> string" where
  "authors_str r = (if joined_authors r = [] then ''Unknown'' else joined_authors r)"

text \<open>The current script: \<^verbatim>\<open>ID\<close>, then \<^verbatim>\<open>Year\<close>, then \<^verbatim>\<open>Authors\<close>.\<close>

definition load_row :: "int \<times> raw \<Rightarrow> entry" where
  "load_row ir =
     (case ir of (i, r) \<Rightarrow>
        raw.extend (r\<lparr>Year := StrV (year_str (Year r))\<rparr>) (entry.fields i (authors_str r)))"

definition load_frame :: "raw list \<Rightarrow> exn + frame" where
  "load_frame rows =
     (case str_accessor (map (\<lambda>r. StrV (py_str (fillna (StrV ''Unknown'') (Year r)))) rows) of
        Inl e \<Rightarrow> Inl e
      | Inr years \<Rightarrow> Inr (Frame (map load_row (zip [1..int (length rows)] rows))))"

definition read_table :: "files \<Rightarrow> string \<Rightarrow> exn + raw list" where
  "read_table fs file_path =
     (if path_suffix file_path = ''.xlsx'' then read_excel fs file_path
      else if path_suffix file_path = ''.csv'' then read_csv fs file_path
      else Inl (ValueError ''Unsupported file format. Use .xlsx or .csv''))"

text \<open>
  The body of the \<^verbatim>\<open>try\<close>, and the method: \<^verbatim>\<open>except Exception\<close> prints the
  message and returns \<^verbatim>\<open>pd.DataFrame()\<close>. The result is the frame and what was
  printed.
\<close>

definition load_body :: "files \<Rightarrow> string \<Rightarrow> exn + frame" where
  "load_body fs file_path =
     (case read_table fs file_path of
        Inl e \<Rightarrow> Inl e
      | Inr rows \<Rightarrow> load_frame rows)"

definition load_library_data :: "files \<Rightarrow> string \<Rightarrow> frame \<times> string list" where
  "load_library_data fs file_path =
     (case load_body fs file_path of
        Inr df \<Rightarrow> (df, [])
      | Inl e \<Rightarrow> (NoColumns, [''Error loading file: '' @ exn_message e]))"

text \<open>The legacy script does the same without touching \<^verbatim>\<open>Year\<close>.\<close>

definition legacy_load_row :: "int \<times> raw \<Rightarrow> entry" where
  "legacy_load_row ir =
     (case ir of (i, r) \<Rightarrow> raw.extend r (entry.fields i (authors_str r)))"

definition legacy_load_body :: "files \<Rightarrow> string \<Rightarrow> exn + frame" where
  "legacy_load_body fs file_path =
     (case read_table fs file_path of
        Inl e \<Rightarrow> Inl e
      | Inr rows \<Rightarrow> Inr (Frame (map legacy_load_row (zip [1..int (length rows)] rows))))"

definition legacy_load_library_data :: "files \<Rightarrow> string \<Rightarrow> frame \<times> string list" where
  "legacy_load_library_data fs file_path =
     (case legacy_load_body fs file_path of
        Inr df \<Rightarrow> (df, [])
      | Inl e \<Rightarrow> (NoColumns, [''Error loading file: '' @ exn_message e]))"

subsection \<open>The object\<close>

record library =
  df :: frame

text \<open>\<^verbatim>\<open>__init__\<close>: the new object and what loading printed.\<close>

definition LivingLibrary :: "files \<Rightarrow> string \<Rightarrow> library \<times> string list" where
  "LivingLibrary fs spreadsheet_path =
     (case load_library_data fs spreadsheet_path of (d, out) \<Rightarrow> (\<lparr>df = d\<rparr>, out))"

definition legacy_LivingLibrary :: "files \<Rightarrow> string \<Rightarrow> library \<times> string list" where
  "legacy_LivingLibrary fs spreadsheet_path =
     (case legacy_load_library_data fs spreadsheet_path of (d, out) \<Rightarrow> (\<lparr>df = d\<rparr>, out))"

subsection \<open>Listing (\<^verbatim>\<open>display_inventory\<close>)\<close>

text \<open>
  The value of \<^verbatim>\<open>display_df\<close> after the filter: a copy of the frame, cut down to
  the rows whose \<^verbatim>\<open>Type\<close> matches when \<^verbatim>\<open>filter_type\<close> is given and not empty.
  The frame without columns has no column \<^verbatim>\<open>Type\<close> to index.
\<close>

definition display_df :: "frame \<Rightarrow> string option \<Rightarrow> exn + frame" where
  "display_df d filter_type =
     (case filter_type of
        None \<Rightarrow> Inr d
      | Some f \<Rightarrow>
          if f = [] then Inr d
          else (case d of
                  NoColumns \<Rightarrow> Inl (KeyError ''Type'')
                | Frame rows \<Rightarrow>
                    (case str_contains (map Type rows) f of
                       Inl e \<Rightarrow> Inl e
                     | Inr keep \<Rightarrow> Inr (Frame (select rows keep)))))"

definition rule_line :: "char \<Rightarrow> string" where
  "rule_line c = replicate 50 c"

definition free_download_is :: "string list \<Rightarrow> 'a raw_scheme \<Rightarrow> bool" where
  "free_download_is words r =
     (case Free_Download r of
        None \<Rightarrow> False
      | Some v \<Rightarrow> lower (py_str v) \<in> set words)"

definition inventory_lines :: "entry \<Rightarrow> string list" where
  "inventory_lines row =
     [fmt_3d (ID row) @ ''. '' @ py_str (Title row),
      ''     Authors: '' @ Authors row,
      ''     Type: '' @ py_str (Type row) @ '' | Format: '' @ py_str (Format row),
      ''     Topic: '' @ py_str (Topic row),
      ''     Publisher: '' @ py_str (Publisher row) @ '' ('' @ py_str (Year row) @ '')'']
     @ (if free_download_is [''yes''] row then ['' You can download this for free!''] else [])
     @ [rule_line CHR ''-'']"

definition display_inventory :: "library \<Rightarrow> string option \<Rightarrow> (exn + string list) \<times> library" where
  "display_inventory self filter_type =
     (case display_df (df self) filter_type of
        Inl e \<Rightarrow> (Inl e, self)
      | Inr shown \<Rightarrow>
          (case shown of
             NoColumns \<Rightarrow> (Inr [''Inventory is empty.''], self)
           | Frame rows \<Rightarrow>
               if rows = [] then (Inr [''Inventory is empty.''], self)
               else (Inr ([CHR 0x0A # rule_line CHR ''='', ''MY LIVING LIBRARY.'',
                           rule_line CHR ''='']
                          @ concat (map inventory_lines rows)), self)))"

subsection \<open>Searching (\<^verbatim>\<open>search_books\<close>)\<close>

text \<open>
  The column \<^verbatim>\<open>Authors\<close> is built by the loader and holds strings; what pandas
  makes of it in a table without rows is not modelled.
\<close>

definition authors_contains :: "entry list \<Rightarrow> string \<Rightarrow> exn + bool list" where
  "authors_contains rows pat =
     (if rows = [] then Inl (NotModelled ''Authors column of a table without rows'')
      else str_contains (map (\<lambda>row. StrV (Authors row)) rows) pat)"

text \<open>
  The value of \<^verbatim>\<open>matches\<close>: the four tests are made in the order written, each on
  the lowered query, and joined with \<^verbatim>\<open>|\<close>.
\<close>

definition search_matches :: "frame \<Rightarrow> string \<Rightarrow> exn + entry list" where
  "search_matches d query =
     (case d of
        NoColumns \<Rightarrow> Inl (KeyError ''Title'')
      | Frame rows \<Rightarrow>
          (case str_contains (map Title rows) (lower query) of
             Inl e \<Rightarrow> Inl e
           | Inr in_title \<Rightarrow>
          (case authors_contains rows (lower query) of
             Inl e \<Rightarrow> Inl e
           | Inr in_authors \<Rightarrow>
          (case str_contains (map Topic rows) (lower query) of
             Inl e \<Rightarrow> Inl e
           | Inr in_topic \<Rightarrow>
          (case str_contains (map Subtitle rows) (lower query) of
             Inl e \<Rightarrow> Inl e
           | Inr in_subtitle \<Rightarrow>
               Inr (select rows
                     (map (\<lambda>(t, a, p, s). t \<or> a \<or> p \<or> s)
                       (zip in_title (zip in_authors (zip in_topic in_subtitle))))))))))"

definition authors_short :: "entry \<Rightarrow> string" where
  "authors_short row =
     (if length (Authors row) > 50 then take 50 (Authors row) @ ''...'' else Authors row)"

definition search_lines :: "entry \<Rightarrow> string list" where
  "search_lines row =
     [fmt_3d (ID row) @ ''. '' @ py_str (Title row),
      ''     By: '' @ authors_short row @ '' | Topic: '' @ py_str (Topic row),
      ''     Type: '' @ py_str (Type row) @ '' | Format: '' @ py_str (Format row),
      rule_line CHR ''-'']"

definition search_books :: "library \<Rightarrow> string \<Rightarrow> (exn + string list) \<times> library" where
  "search_books self query =
     (case search_matches (df self) query of
        Inl e \<Rightarrow> (Inl e, self)
      | Inr matches \<Rightarrow>
          if matches = []
          then (Inr [''No items found matching '' @ [CHR 0x27] @ lower query @ [CHR 0x27]], self)
          else (Inr ([CHR 0x0A # ''Search results for '' @ [CHR 0x27] @ lower query
                        @ [CHR 0x27] @ '':'',
                      rule_line CHR ''-'']
                     @ concat (map search_lines matches)), self))"

text \<open>The legacy script's method, from its own text.\<close>

definition legacy_search_matches :: "frame \<Rightarrow> string \<Rightarrow> exn + entry list" where
  "legacy_search_matches d query =
     (case d of
        NoColumns \<Rightarrow> Inl (KeyError ''Title'')
      | Frame rows \<Rightarrow>
          (case str_contains (map Title rows) (lower query) of
             Inl e \<Rightarrow> Inl e
           | Inr in_title \<Rightarrow>
          (case authors_contains rows (lower query) of
             Inl e \<Rightarrow> Inl e
           | Inr in_authors \<Rightarrow>
          (case str_contains (map Topic rows) (lower query) of
             Inl e \<Rightarrow> Inl e
           | Inr in_topic \<Rightarrow>
          (case str_contains (map Subtitle rows) (lower query) of
             Inl e \<Rightarrow> Inl e
           | Inr in_subtitle \<Rightarrow>
               Inr (select rows
                     (map (\<lambda>(t, a, p, s). t \<or> a \<or> p \<or> s)
                       (zip in_title (zip in_authors (zip in_topic in_subtitle))))))))))"

definition legacy_search_books :: "library \<Rightarrow> string \<Rightarrow> (exn + string list) \<times> library" where
  "legacy_search_books self query =
     (case legacy_search_matches (df self) query of
        Inl e \<Rightarrow> (Inl e, self)
      | Inr matches \<Rightarrow>
          if matches = []
          then (Inr [''No items found matching '' @ [CHR 0x27] @ lower query @ [CHR 0x27]], self)
          else (Inr ([CHR 0x0A # ''Search results for '' @ [CHR 0x27] @ lower query
                        @ [CHR 0x27] @ '':'',
                      rule_line CHR ''-'']
                     @ concat (map search_lines matches)), self))"

subsection \<open>Looking an item up (\<^verbatim>\<open>access_item\<close>)\<close>

definition item_lines :: "entry \<Rightarrow> string list" where
  "item_lines item =
     [CHR 0x0A # ''Accessing: '' @ py_str (Title item),
      ''Authors: '' @ Authors item,
      ''Type: '' @ py_str (Type item) @ '' | Format: '' @ py_str (Format item),
      ''Topic: '' @ py_str (Topic item),
      ''Publisher: '' @ py_str (Publisher item) @ '' ('' @ py_str (Year item) @ '')'']
     @ (if notna (Subtitle item) then [''Subtitle: '' @ py_str (Subtitle item)] else [])
     @ (if free_download_is [''yes'', ''true''] item
        then ['' This item is available as a free download!''] else [])"

text \<open>
  The result is the pair the method returns and what it printed. Only
  \<^verbatim>\<open>ValueError\<close> is caught, and only \<^verbatim>\<open>int\<close> raises it; indexing the frame without
  columns by \<^verbatim>\<open>'ID'\<close> raises \<^verbatim>\<open>KeyError\<close>, which escapes. The index labels of a
  frame that was read from a file are the positions of its rows, so
  \<^verbatim>\<open>.index[0]\<close> is the position of the first row with the ID, and \<^verbatim>\<open>iloc\<close> reads
  the row at that position.
\<close>

definition access_item ::
  "library \<Rightarrow> string \<Rightarrow> (exn + (int \<times> string) \<times> string list) \<times> library" where
  "access_item self book_id =
     (case py_int book_id of
        None \<Rightarrow> (Inr ((- 1, ''Please enter a valid item ID number''), []), self)
      | Some n \<Rightarrow>
          (case df self of
             NoColumns \<Rightarrow> (Inl (KeyError ''ID''), self)
           | Frame rows \<Rightarrow>
               if n \<notin> set (map ID rows) then (Inr ((- 1, ''Invalid item ID''), []), self)
               else (case filter (\<lambda>i. ID (rows ! i) = n) [0..<length rows] of
                       [] \<Rightarrow> (Inl (IndexError ''index 0 is out of bounds''), self)
                     | book_idx # _ \<Rightarrow>
                         if book_idx < length rows
                         then (Inr ((0, ''Item details displayed''),
                                    item_lines (rows ! book_idx)), self)
                         else (Inl (IndexError ''single positional indexer is out-of-bounds''),
                               self))))"

subsection \<open>The types in the library (\<^verbatim>\<open>get_types\<close>)\<close>

text \<open>\<^verbatim>\<open>Series.unique()\<close>: the distinct values in the order they first appear.\<close>

fun unique :: "'a list \<Rightarrow> 'a list" where
  "unique [] = []"
| "unique (x # xs) = x # unique (filter (\<lambda>y. y \<noteq> x) xs)"

definition get_types :: "library \<Rightarrow> (exn + cell list) \<times> library" where
  "get_types self =
     (case df self of
        NoColumns \<Rightarrow> (Inl (KeyError ''Type''), self)
      | Frame rows \<Rightarrow> (Inr (unique (map Type rows)), self))"

subsection \<open>The tests of the search, on one row\<close>

text \<open>
  The four tests that \<^verbatim>\<open>search_books\<close> joins with \<^verbatim>\<open>|\<close>, for a compiled
  pattern and one row.
\<close>

definition entry_matches :: "atom list \<Rightarrow> entry \<Rightarrow> bool" where
  "entry_matches rx row \<longleftrightarrow>
     cell_contains rx (Title row) \<or> re_search rx (Authors row) \<or>
     cell_contains rx (Topic row) \<or> cell_contains rx (Subtitle row)"

section \<open>What the specification says\<close>

text \<open>
  The definitions of this section follow the words of the specification, not the code;
  the theorems compare the code with them.
\<close>

text \<open>A query with none of the characters that \<^verbatim>\<open>re\<close> reads as syntax.\<close>

definition plain :: "string \<Rightarrow> bool" where
  "plain q = list_all (\<lambda>c. \<not> re_special c) q"

text \<open>
  ``The field contains the query as a substring, case-insensitively'': the lowered
  query is a contiguous part of the lowered field. An absent field never matches.
\<close>

definition spec_contains :: "string \<Rightarrow> string \<Rightarrow> bool" where
  "spec_contains q s = sublist (lower q) (lower s)"

fun spec_field_contains :: "string \<Rightarrow> cell \<Rightarrow> bool" where
  "spec_field_contains q (StrV s) = spec_contains q s"
| "spec_field_contains q c = False"

definition spec_search_hit :: "string \<Rightarrow> entry \<Rightarrow> bool" where
  "spec_search_hit q row \<longleftrightarrow>
     spec_field_contains q (Title row) \<or> spec_contains q (Authors row) \<or>
     spec_field_contains q (Topic row) \<or> spec_field_contains q (Subtitle row)"

text \<open>``Stripping an exact trailing \<^verbatim>\<open>.0\<close> suffix'', and nothing else.\<close>

definition spec_strip_suffix :: "string \<Rightarrow> string" where
  "spec_strip_suffix s = (if suffix ''.0'' s then take (length s - 2) s else s)"

fun spec_year :: "cell \<Rightarrow> string" where
  "spec_year NaN = ''Unknown''"
| "spec_year c = spec_strip_suffix (py_str c)"

text \<open>
  ``The non-empty, non-n/a values among the author columns, in column order, joined
  by a comma and a space; \<^verbatim>\<open>Unknown\<close> when there is none.'' A missing cell holds
  no value.
\<close>

fun present :: "string option list \<Rightarrow> string list" where
  "present [] = []"
| "present (None # cells) = present cells"
| "present (Some s # cells) = s # present cells"

definition spec_kept_authors :: "'a raw_scheme \<Rightarrow> string list" where
  "spec_kept_authors r =
     filter (\<lambda>s. s \<noteq> [] \<and> s \<noteq> ''n/a'') (present (author_cols r))"

definition spec_authors :: "'a raw_scheme \<Rightarrow> string" where
  "spec_authors r =
     (if spec_kept_authors r = [] then ''Unknown'' else join '', '' (spec_kept_authors r))"

section \<open>A sample catalogue\<close>

text \<open>
  Three rows with the titles and topics of the end-to-end scenario of the
  specification, as \<^verbatim>\<open>pd.read_csv\<close> gives them: every text is a string, an empty
  field is missing. No title, subtitle, author, topic or type contains a dot; the
  year of the third row is a date.
\<close>

definition book :: "string \<Rightarrow> string \<Rightarrow> string option list \<Rightarrow> string \<Rightarrow> cell \<Rightarrow> raw" where
  "book title subtitle authors topic year =
     \<lparr>Title = StrV title, Subtitle = StrV subtitle,
      Author_1 = authors ! 0, Author_2 = authors ! 1, Author_3 = authors ! 2,
      Author_4 = authors ! 3, Author_5 = authors ! 4,
      Type = StrV ''Book'', Format = StrV ''PDF'', Topic = StrV topic,
      Publisher = StrV ''Press'', Year = year, Free_Download = None\<rparr>"

definition sample_rows :: "raw list" where
  "sample_rows =
     [book ''Clean Code'' ''A Handbook of Agile Software Craftsmanship''
        [Some ''Robert Martin'', None, None, None, None] ''Software'' (StrV ''2008''),
      book ''The Pragmatic Programmer'' ''Your Journey''
        [Some ''Andrew Hunt'', Some ''David Thomas'', None, None, None] ''Software'' NaN,
      book ''Deep Work'' ''Rules for Focus''
        [Some ''Cal Newport'', None, None, None, None] ''Productivity''
        (StrV ''1999.05.01'')]"

definition sample_files :: files where
  "sample_files =
     \<lparr>read_excel = (\<lambda>p. Inl (ReadError ''No such file'')),
      read_csv = (\<lambda>p. if p = ''data/justLib.csv'' then Inr sample_rows
                       else Inl (ReadError ''No such file''))\<rparr>"

definition sample_library :: library where
  "sample_library = fst (LivingLibrary sample_files ''data/justLib.csv'')"

definition sample_entries :: "entry list" where
  "sample_entries =
     [raw.extend ((sample_rows ! 0)\<lparr>Year := StrV ''2008''\<rparr>)
        (entry.fields 1 ''Robert Martin''),
      raw.extend ((sample_rows ! 1)\<lparr>Year := StrV ''Unknown''\<rparr>)
        (entry.fields 2 ''Andrew Hunt, David Thomas''),
      raw.extend ((sample_rows ! 2)\<lparr>Year := StrV ''199951''\<rparr>)
        (entry.fields 3 ''Cal Newport'')]"

text \<open>The same catalogue when no row has a subtitle: the column holds no string.\<close>

definition no_subtitle_rows :: "raw list" where
  "no_subtitle_rows = map (\<lambda>r. r\<lparr>Subtitle := NaN\<rparr>) sample_rows"

text \<open>
  Two rows for the author columns: the example of the specification, and a row
  without any author.
\<close>

definition author_example_row :: raw where
  "author_example_row =
     book ''Notes'' ''On the Engine''
       [Some ''Ada'', Some [], Some ''n/a'', None, Some ''Lovelace''] ''Computing''
       (IntV 1843)"

definition no_author_row :: raw where
  "no_author_row =
     book ''Anonymous'' ''A Pamphlet''
       [None, Some [], Some ''n/a'', None, None] ''History'' NaN"

section \<open>Lemmas about the Python helpers\<close>

lemma lower_char_fix: "c \<notin> set ''ABCDEFGHIJKLMNOPQRSTUVWXYZ'' \<Longrightarrow> lower_char c = c"
  by (simp add: lower_char_def)

lemma lower_char_not_upper: "lower_char c \<notin> set ''ABCDEFGHIJKLMNOPQRSTUVWXYZ''"
  by (simp add: lower_char_def)

lemma lower_char_idem: "lower_char (lower_char c) = lower_char c"
  by (rule lower_char_fix) (rule lower_char_not_upper)

lemma re_special_lower_char: "re_special (lower_char c) = re_special c"
  by (simp add: lower_char_def re_special_def)

lemma lower_idem: "lower (lower s) = lower s"
  by (simp add: lower_def lower_char_idem)

lemma plain_lower: "plain (lower q) = plain q"
  by (simp add: plain_def lower_def list_all_iff re_special_lower_char)

subsection \<open>A plain pattern is a case-insensitive substring test\<close>

lemma match_here_lits: "match_here (map Lit q) s \<longleftrightarrow> prefix (lower q) (lower s)"
  by (induction q s rule: list_induct2') (simp_all add: lower_def)

lemma re_search_lits: "re_search (map Lit q) s \<longleftrightarrow> sublist (lower q) (lower s)"
proof (induction s)
  case Nil
  then show ?case by (cases q) (simp_all add: lower_def)
next
  case (Cons d ds)
  have "sublist (lower q) (lower (d # ds)) \<longleftrightarrow>
        prefix (lower q) (lower (d # ds)) \<or> sublist (lower q) (lower ds)"
    by (simp add: lower_def sublist_Cons_right)
  with Cons show ?case by (simp add: match_here_lits)
qed

lemma re_compile_plain:
  assumes "plain q"
  shows "re_compile q = Inr (map Lit q)"
proof -
  have no_dot: "\<forall>c\<in>set q. c \<noteq> CHR ''.''"
    using assms by (auto simp: plain_def list_all_iff re_special_def)
  have hd_ok: "q \<noteq> [] \<Longrightarrow> hd q \<notin> set [CHR ''*'', CHR ''+'', CHR ''?'']"
    using assms by (cases q) (auto simp: plain_def re_special_def)
  have all: "list_all (\<lambda>c. c = CHR ''.'' \<or> \<not> re_special c) q"
    using assms by (simp add: plain_def list_all_iff)
  have "map (\<lambda>c. if c = CHR ''.'' then AnyChar else Lit c) q = map Lit q"
    using no_dot by (induction q) simp_all
  with hd_ok all show ?thesis
    unfolding re_compile_def by (cases "q = []") simp_all
qed

lemma cell_contains_plain:
  "cell_contains (map Lit (lower q)) c = spec_field_contains q c"
  by (cases c) (simp_all add: re_search_lits spec_contains_def lower_idem)

lemma entry_matches_plain: "entry_matches (map Lit (lower q)) row = spec_search_hit q row"
  by (simp add: entry_matches_def spec_search_hit_def cell_contains_plain re_search_lits
      spec_contains_def lower_idem)

subsection \<open>Masks and selections\<close>

lemma select_map: "select xs (map P xs) = filter P xs"
  by (induction xs) (simp_all add: select_def)

lemma select_map_rows: "select (map g xs) keep = map g (select xs keep)"
proof (induction xs arbitrary: keep)
  case Nil
  then show ?case by (simp add: select_def)
next
  case (Cons x xs)
  from Cons [of "tl keep"] show ?case
    by (cases keep) (simp_all add: select_def)
qed

lemma subseq_select: "subseq (select xs keep) xs"
proof (induction xs arbitrary: keep)
  case Nil
  then show ?case by (simp add: select_def)
next
  case (Cons x xs)
  from Cons [of "tl keep"] show ?case
    by (cases keep) (auto simp: select_def)
qed

lemma mask_of_four:
  "map (\<lambda>(t, a, p, s). t \<or> a \<or> p \<or> s)
     (zip (map f xs) (zip (map g xs) (zip (map h xs) (map k xs))))
   = map (\<lambda>x. f x \<or> g x \<or> h x \<or> k x) xs"
  by (induction xs) simp_all

lemma str_contains_Inr:
  assumes "str_contains col pat = Inr keep"
  shows "\<exists>rx. re_compile pat = Inr rx \<and> keep = map (cell_contains rx) col"
  using assms unfolding str_contains_def str_accessor_def
  by (auto split: sum.splits if_splits)

lemma str_contains_ok:
  assumes "col = [] \<or> list_ex is_str col" and "re_compile pat = Inr rx"
  shows "str_contains col pat = Inr (map (cell_contains rx) col)"
  using assms unfolding str_contains_def str_accessor_def by auto

lemma authors_contains_Inr:
  assumes "authors_contains rows pat = Inr keep"
  shows "\<exists>rx. re_compile pat = Inr rx \<and> keep = map (\<lambda>row. re_search rx (Authors row)) rows"
proof -
  from assms have "str_contains (map (\<lambda>row. StrV (Authors row)) rows) pat = Inr keep"
    unfolding authors_contains_def by (simp split: if_splits)
  from str_contains_Inr [OF this] show ?thesis by (auto simp: comp_def)
qed

lemma authors_contains_ok:
  assumes "rows \<noteq> []" and "re_compile pat = Inr rx"
  shows "authors_contains rows pat = Inr (map (\<lambda>row. re_search rx (Authors row)) rows)"
proof -
  from assms(1) have "list_ex is_str (map (\<lambda>row. StrV (Authors row)) rows)"
    by (cases rows) simp_all
  with assms(2) show ?thesis
    unfolding authors_contains_def using assms(1)
    by (simp add: str_contains_ok comp_def)
qed

subsection \<open>What a search selects\<close>

lemma search_matches_Inr:
  assumes "search_matches (Frame rows) q = Inr ms"
  shows "\<exists>rx. re_compile (lower q) = Inr rx \<and> ms = filter (entry_matches rx) rows"
proof -
  from assms obtain k1 k2 k3 k4 where
    t: "str_contains (map Title rows) (lower q) = Inr k1" and
    a: "authors_contains rows (lower q) = Inr k2" and
    p: "str_contains (map Topic rows) (lower q) = Inr k3" and
    s: "str_contains (map Subtitle rows) (lower q) = Inr k4" and
    ms: "ms = select rows (map (\<lambda>(t, a, p, s). t \<or> a \<or> p \<or> s) (zip k1 (zip k2 (zip k3 k4))))"
    unfolding search_matches_def by (auto split: sum.splits)
  from str_contains_Inr [OF t] obtain rx where
    rx: "re_compile (lower q) = Inr rx" and k1: "k1 = map (cell_contains rx) (map Title rows)"
    by blast
  from authors_contains_Inr [OF a] rx
  have k2: "k2 = map (\<lambda>row. re_search rx (Authors row)) rows" by auto
  from str_contains_Inr [OF p] rx
  have k3: "k3 = map (cell_contains rx) (map Topic rows)" by auto
  from str_contains_Inr [OF s] rx
  have k4: "k4 = map (cell_contains rx) (map Subtitle rows)" by auto
  have "ms = select rows (map (entry_matches rx) rows)"
    unfolding ms k1 k2 k3 k4 map_map comp_def mask_of_four entry_matches_def ..
  with rx show ?thesis by (auto simp: select_map)
qed

lemma search_matches_ok:
  assumes "rows \<noteq> []"
    and "list_ex is_str (map Title rows)"
    and "list_ex is_str (map Topic rows)"
    and "list_ex is_str (map Subtitle rows)"
    and rx: "re_compile (lower q) = Inr rx"
  shows "search_matches (Frame rows) q = Inr (filter (entry_matches rx) rows)"
proof -
  have "search_matches (Frame rows) q
        = Inr (select rows (map (\<lambda>(t, a, p, s). t \<or> a \<or> p \<or> s)
            (zip (map (cell_contains rx) (map Title rows))
              (zip (map (\<lambda>row. re_search rx (Authors row)) rows)
                (zip (map (cell_contains rx) (map Topic rows))
                     (map (cell_contains rx) (map Subtitle rows)))))))"
    unfolding search_matches_def
    by (simp add: str_contains_ok [OF _ rx] authors_contains_ok [OF assms(1) rx] assms)
  also have "\<dots> = Inr (select rows (map (entry_matches rx) rows))"
    unfolding map_map comp_def mask_of_four entry_matches_def ..
  finally show ?thesis by (simp add: select_map)
qed

text \<open>
  For a plain query, on a table in which each searched column holds a string, the
  search is the substring filter of the specification.
\<close>

lemma search_matches_plain:
  assumes "plain q" and "rows \<noteq> []"
    and "list_ex is_str (map Title rows)"
    and "list_ex is_str (map Topic rows)"
    and "list_ex is_str (map Subtitle rows)"
  shows "search_matches (Frame rows) q = Inr (filter (spec_search_hit q) rows)"
proof -
  from assms(1) have "re_compile (lower q) = Inr (map Lit (lower q))"
    by (simp add: re_compile_plain plain_lower)
  from search_matches_ok [OF assms(2-5) this] show ?thesis
    by (simp add: entry_matches_plain [abs_def])
qed

lemma display_df_plain:
  assumes "plain f" and "f \<noteq> []" and "list_ex is_str (map Type rows)"
  shows "display_df (Frame rows) (Some f)
         = Inr (Frame (filter (\<lambda>row. spec_field_contains f (Type row)) rows))"
proof -
  have rx: "re_compile f = Inr (map Lit f)"
    using assms(1) by (rule re_compile_plain)
  have c: "cell_contains (map Lit f) c = spec_field_contains f c" for c
    by (cases c) (simp_all add: re_search_lits spec_contains_def)
  have "map (cell_contains (map Lit f)) (map Type rows)
        = map (\<lambda>row. spec_field_contains f (Type row)) rows"
    by (simp add: c)
  then have "str_contains (map Type rows) f
             = Inr (map (\<lambda>row. spec_field_contains f (Type row)) rows)"
    using str_contains_ok [OF disjI2 [OF assms(3)] rx] by simp
  with assms(2) show ?thesis
    unfolding display_df_def by (simp add: select_map)
qed

section \<open>The sample catalogue, loaded\<close>

lemma suffix_csv: "path_suffix ''data/justLib.csv'' = ''.csv''"
  by code_simp

lemma read_sample: "read_table sample_files ''data/justLib.csv'' = Inr sample_rows"
  by (simp add: read_table_def suffix_csv sample_files_def)

lemma year_2008: "year_str (StrV ''2008'') = ''2008''"
  by code_simp

lemma year_missing: "year_str NaN = ''Unknown''"
  by code_simp

lemma year_date: "year_str (StrV ''1999.05.01'') = ''199951''"
  by code_simp

lemma authors_martin:
  "authors_str (book t s [Some ''Robert Martin'', None, None, None, None] p y)
   = ''Robert Martin''"
  by (simp add: authors_str_def joined_authors_def author_cols_def fillna_text_def book_def)

lemma authors_hunt_thomas:
  "authors_str (book t s [Some ''Andrew Hunt'', Some ''David Thomas'', None, None, None] p y)
   = ''Andrew Hunt, David Thomas''"
  by (simp add: authors_str_def joined_authors_def author_cols_def fillna_text_def book_def)

lemma authors_cal:
  "authors_str (book t s [Some ''Cal Newport'', None, None, None, None] p y) = ''Cal Newport''"
  by (simp add: authors_str_def joined_authors_def author_cols_def fillna_text_def book_def)

lemma authors_ada: "authors_str author_example_row = ''Ada, Lovelace''"
  by (simp add: authors_str_def joined_authors_def author_cols_def fillna_text_def book_def
      author_example_row_def)

lemma authors_none: "authors_str no_author_row = ''Unknown''"
  by (simp add: authors_str_def joined_authors_def author_cols_def fillna_text_def book_def
      no_author_row_def)

lemma upto_1_3: "[1..3::int] = [1, 2, 3]"
  by (simp add: upto.simps)

lemma year_book: "Year (book t s a p y) = y"
  by (simp add: book_def)

lemma load_frame_sample: "load_frame sample_rows = Inr (Frame sample_entries)"
  by (simp add: load_frame_def str_accessor_def sample_rows_def sample_entries_def
      load_row_def upto_1_3 authors_martin authors_hunt_thomas authors_cal
      year_2008 year_missing year_date year_book)

lemma load_sample:
  "load_library_data sample_files ''data/justLib.csv'' = (Frame sample_entries, [])"
  by (simp add: load_library_data_def load_body_def read_sample load_frame_sample)

lemma sample_library_df: "df sample_library = Frame sample_entries"
  by (simp add: sample_library_def LivingLibrary_def load_sample)

lemma sample_library_eq: "sample_library = \<lparr>df = Frame sample_entries\<rparr>"
  by (simp add: sample_library_def LivingLibrary_def load_sample)

lemma search_sample_dot: "search_matches (Frame sample_entries) ''.'' = Inr sample_entries"
  by code_simp

lemma no_dot_in_sample: "filter (spec_search_hit ''.'') sample_entries = []"
  by code_simp

lemma search_sample_star:
  "search_matches (Frame sample_entries) ''*'' = Inl (ReError ''nothing to repeat at position 0'')"
  by code_simp

lemma search_sample_software:
  "search_matches (Frame sample_entries) ''SOFTWARE''
   = Inr [sample_entries ! 0, sample_entries ! 1]"
  by code_simp

lemma display_sample_dot: "display_df (Frame sample_entries) (Some ''.'') = Inr (Frame sample_entries)"
  by code_simp

lemma no_dot_in_sample_types:
  "filter (\<lambda>row. spec_field_contains ''.'' (Type row)) sample_entries = []"
  by code_simp

lemma display_sample_book:
  "display_df (Frame sample_entries) (Some ''book'') = Inr (Frame sample_entries)"
  by code_simp

section \<open>Lemmas about loading\<close>

lemma ID_load_row [simp]: "ID (load_row (i, r)) = i"
  by (simp add: load_row_def raw.defs entry.defs)

lemma Authors_load_row [simp]: "Authors (load_row (i, r)) = authors_str r"
  by (simp add: load_row_def raw.defs entry.defs)

lemma Year_load_row [simp]: "Year (load_row (i, r)) = StrV (year_str (Year r))"
  by (simp add: load_row_def raw.defs entry.defs)

lemma cols_load_row [simp]:
  "Title (load_row (i, r)) = Title r"
  "Subtitle (load_row (i, r)) = Subtitle r"
  "Topic (load_row (i, r)) = Topic r"
  "Type (load_row (i, r)) = Type r"
  "Format (load_row (i, r)) = Format r"
  "Publisher (load_row (i, r)) = Publisher r"
  "Free_Download (load_row (i, r)) = Free_Download r"
  by (simp_all add: load_row_def raw.defs entry.defs)

lemma ID_legacy_load_row [simp]: "ID (legacy_load_row (i, r)) = i"
  by (simp add: legacy_load_row_def raw.defs entry.defs)

lemma Authors_legacy_load_row [simp]: "Authors (legacy_load_row (i, r)) = authors_str r"
  by (simp add: legacy_load_row_def raw.defs entry.defs)

lemma load_row_legacy:
  "load_row (i, r) = (legacy_load_row (i, r))\<lparr>Year := StrV (year_str (Year r))\<rparr>"
  by (simp add: load_row_def legacy_load_row_def raw.defs entry.defs)

lemma Year_legacy_load_row [simp]: "Year (legacy_load_row (i, r)) = Year r"
  by (simp add: legacy_load_row_def raw.defs entry.defs)

lemma length_upto_1: "length [1..int n] = n"
  by simp

lemma map_zip_fst:
  "length xs = length ys \<Longrightarrow> map (\<lambda>z. f (fst z)) (zip xs ys) = map f xs"
  by (induction xs ys rule: list_induct2) simp_all

lemma map_zip_snd:
  "length xs = length ys \<Longrightarrow> map (\<lambda>z. f (snd z)) (zip xs ys) = map f ys"
  by (induction xs ys rule: list_induct2) simp_all

lemma load_row_proj:
  "ID (load_row z) = fst z"
  "Title (load_row z) = Title (snd z)"
  "Topic (load_row z) = Topic (snd z)"
  "Subtitle (load_row z) = Subtitle (snd z)"
  "Type (load_row z) = Type (snd z)"
  "Authors (load_row z) = authors_str (snd z)"
  "Year (load_row z) = StrV (year_str (Year (snd z)))"
  by (cases z, simp)+

lemma load_frame_total:
  "load_frame rows = Inr (Frame (map load_row (zip [1..int (length rows)] rows)))"
proof -
  have "rows \<noteq> [] \<Longrightarrow>
        list_ex is_str (map (\<lambda>r. StrV (py_str (fillna (StrV ''Unknown'') (Year r)))) rows)"
    by (cases rows) simp_all
  then show ?thesis
    unfolding load_frame_def str_accessor_def by auto
qed

lemma map_ID_loaded:
  "map ID (map load_row (zip [1..int (length rows)] rows)) = [1..int (length rows)]"
  using map_zip_fst [of "[1..int (length rows)]" rows id]
  by (simp add: comp_def load_row_proj)

lemma map_col_loaded:
  "map Title (map load_row (zip [1..int (length rows)] rows)) = map Title rows"
  "map Topic (map load_row (zip [1..int (length rows)] rows)) = map Topic rows"
  "map Subtitle (map load_row (zip [1..int (length rows)] rows)) = map Subtitle rows"
  "map Type (map load_row (zip [1..int (length rows)] rows)) = map Type rows"
  "map Authors (map load_row (zip [1..int (length rows)] rows)) = map authors_str rows"
  "map Year (map load_row (zip [1..int (length rows)] rows))
   = map (\<lambda>r. StrV (year_str (Year r))) rows"
  using map_zip_snd [of "[1..int (length rows)]" rows "\<lambda>r. StrV (year_str (Year r))"]
  by (simp_all add: comp_def load_row_proj map_zip_snd)

lemma nth_loaded:
  assumes "k < length rows"
  shows "map load_row (zip [1..int (length rows)] rows) ! k = load_row (int k + 1, rows ! k)"
proof -
  have "[1..int (length rows)] ! k = 1 + int k"
    using assms by (intro nth_upto) simp
  with assms show ?thesis by (simp add: add.commute)
qed

lemma sorted_upto_strict: "sorted_wrt (<) [i..j]"
proof -
  have "sorted [i..j]" and "distinct [i..j]" by simp_all
  then show ?thesis by (simp add: strict_sorted_iff)
qed

section \<open>Lemmas about years and authors\<close>

lemma str_replace_id: "\<not> sublist old s \<Longrightarrow> str_replace old new s = s"
proof (induction s)
  case Nil
  then show ?case by simp
next
  case (Cons c cs)
  from Cons.prems have "\<not> prefix old (c # cs)" and "\<not> sublist old cs"
    by (auto simp: sublist_Cons_right)
  with Cons.IH show ?case by simp
qed

lemma str_replace_first:
  assumes "\<not> sublist ''.0'' (a @ ''.'')"
  shows "str_replace ''.0'' new (a @ ''.0'' @ b) = a @ new @ str_replace ''.0'' new b"
  using assms
proof (induction a)
  case Nil
  then show ?case by simp
next
  case (Cons x xs)
  from Cons.prems have tail: "\<not> sublist ''.0'' (xs @ ''.'')"
    by (auto simp: sublist_Cons_right)
  have np: "\<not> prefix ''.0'' (x # xs @ ''.0'' @ b)"
  proof
    assume "prefix ''.0'' (x # xs @ ''.0'' @ b)"
    then have "prefix ''.0'' ((x # xs) @ ''.'')"
      by (cases xs) (auto simp: prefix_Cons)
    then have "sublist ''.0'' ((x # xs) @ ''.'')"
      by (rule prefix_imp_sublist)
    with Cons.prems show False by simp
  qed
  have "str_replace ''.0'' new ((x # xs) @ ''.0'' @ b)
        = x # str_replace ''.0'' new (xs @ ''.0'' @ b)"
    using np by (simp del: prefix_code append.simps add: append_Cons)
  also have "\<dots> = x # xs @ new @ str_replace ''.0'' new b"
    by (simp only: Cons.IH [OF tail])
  finally show ?case by simp
qed

lemma join_Nil_iff:
  assumes "\<forall>x\<in>set xs. x \<noteq> []"
  shows "join sep xs = [] \<longleftrightarrow> xs = []"
  using assms by (induction sep xs rule: join.induct) simp_all

lemma kept_cells:
  "filter (\<lambda>val. val \<noteq> [] \<and> val \<noteq> ''n/a'') (map (fillna_text []) cells)
   = filter (\<lambda>s. s \<noteq> [] \<and> s \<noteq> ''n/a'') (present cells)"
  by (induction cells rule: present.induct) (simp_all add: fillna_text_def)

lemma joined_authors_spec: "joined_authors r = join '', '' (spec_kept_authors r)"
  by (simp add: joined_authors_def spec_kept_authors_def kept_cells)

lemma joined_authors_Nil_iff: "joined_authors r = [] \<longleftrightarrow> spec_kept_authors r = []"
  unfolding joined_authors_spec
  by (rule join_Nil_iff) (simp add: spec_kept_authors_def)

text \<open>
  Where the text of a year holds \<^verbatim>\<open>.0\<close> at its end only, or not at all, the loader
  does what was meant: the trailing \<^verbatim>\<open>.0\<close> of a float goes, everything else stays.
\<close>

lemma year_str_plain: "\<not> sublist ''.0'' s \<Longrightarrow> year_str (StrV s) = s"
  by (simp add: year_str_def str_replace_id)

lemma year_str_float:
  assumes "\<not> sublist ''.0'' s"
  shows "year_str (FloatV (s @ ''.0'')) = s"
proof -
  have "\<not> sublist ''.0'' (s @ ''.'')"
  proof
    assume "sublist ''.0'' (s @ ''.'')"
    then obtain ps ss where e: "s @ ''.'' = ps @ ''.0'' @ ss"
      by (auto simp: sublist_def)
    then have "sublist ''.0'' s"
      by (cases ss rule: rev_cases) (auto simp: sublist_def)
    with assms show False by simp
  qed
  from str_replace_first [OF this, of "[]" "[]"] show ?thesis
    by (simp add: year_str_def)
qed

section \<open>Lemmas about the queries\<close>

lemma filter_eq_upt: "filter (\<lambda>i. i = k) [0..<n] = (if k < n then [k] else [])"
  by (induction n) simp_all

lemma loaded_ID_mem:
  "n \<in> set (map ID (map load_row (zip [1..int (length rows)] rows)))
   \<longleftrightarrow> 1 \<le> n \<and> n \<le> int (length rows)"
  by (simp only: map_ID_loaded) simp

lemma loaded_index_of_ID:
  assumes "1 \<le> n" and "n \<le> int (length rows)"
  shows "filter (\<lambda>i. ID (map load_row (zip [1..int (length rows)] rows) ! i) = n)
           [0..<length (map load_row (zip [1..int (length rows)] rows))]
         = [nat (n - 1)]"
proof -
  let ?es = "map load_row (zip [1..int (length rows)] rows)"
  have len: "length ?es = length rows" by simp
  have "filter (\<lambda>i. ID (?es ! i) = n) [0..<length rows]
        = filter (\<lambda>i. i = nat (n - 1)) [0..<length rows]"
  proof (rule filter_cong [OF refl])
    fix i assume "i \<in> set [0..<length rows]"
    then have i: "i < length rows" by simp
    have "ID (?es ! i) = int i + 1"
      by (simp only: nth_loaded [OF i] ID_load_row)
    with assms show "(ID (?es ! i) = n) = (i = nat (n - 1))" by auto
  qed
  also have "\<dots> = [nat (n - 1)]"
    using assms by (simp add: filter_eq_upt)
  finally show ?thesis by (simp only: len)
qed

lemma access_item_loaded:
  "access_item \<lparr>df = Frame (map load_row (zip [1..int (length rows)] rows))\<rparr> s =
     (case py_int s of
        None \<Rightarrow> (Inr ((- 1, ''Please enter a valid item ID number''), []),
                  \<lparr>df = Frame (map load_row (zip [1..int (length rows)] rows))\<rparr>)
      | Some n \<Rightarrow>
          if 1 \<le> n \<and> n \<le> int (length rows)
          then (Inr ((0, ''Item details displayed''),
                     item_lines (load_row (n, rows ! nat (n - 1)))),
                \<lparr>df = Frame (map load_row (zip [1..int (length rows)] rows))\<rparr>)
          else (Inr ((- 1, ''Invalid item ID''), []),
                \<lparr>df = Frame (map load_row (zip [1..int (length rows)] rows))\<rparr>))"
proof (cases "py_int s")
  case None
  then show ?thesis by (simp add: access_item_def)
next
  case (Some n)
  let ?es = "map load_row (zip [1..int (length rows)] rows)"
  show ?thesis
  proof (cases "1 \<le> n \<and> n \<le> int (length rows)")
    case False
    then have "n \<notin> set (map ID ?es)"
      using loaded_ID_mem [of n rows] by blast
    with Some False show ?thesis
      by (simp add: access_item_def del: set_map map_map)
  next
    case True
    then have mem: "n \<in> set (map ID ?es)"
      using loaded_ID_mem [of n rows] by blast
    from True have idx: "filter (\<lambda>i. ID (?es ! i) = n) [0..<length ?es] = [nat (n - 1)]"
      by (intro loaded_index_of_ID) simp_all
    from True have k: "nat (n - 1) < length rows" by linarith
    have "int (nat (n - 1)) + 1 = n"
      using True by linarith
    then have item: "?es ! nat (n - 1) = load_row (n, rows ! nat (n - 1))"
      by (simp only: nth_loaded [OF k])
    have lt: "nat (n - 1) < length ?es"
      using k by simp
    show ?thesis
      unfolding access_item_def Some option.case library.simps frame.case
      using mem True
      by (simp only: idx list.case lt item if_True not_True_eq_False if_False simp_thms)
  qed
qed

lemma py_int_separator: "py_int [CHR 0x1C, CHR ''3''] = None"
  by code_simp

lemma py_int_no_break_space: "py_int [CHR 0xA0, CHR ''3''] = Some 3"
  by code_simp

lemma py_int_too_many_digits:
  assumes "n > int_max_str_digits"
  shows "py_int (replicate n CHR ''1'') = None"
proof -
  have one: "space_to_ascii CHR ''1'' = CHR ''1''" "\<not> is_space CHR ''1''" "is_digit CHR ''1''"
    by (simp_all add: space_to_ascii_def is_space_def is_digit_def)
  have keep: "dropWhile is_space (replicate k CHR ''1'') = replicate k CHR ''1''" for k
    using one(2) by (cases k) simp_all
  have "strip (map space_to_ascii (replicate n CHR ''1'')) = replicate n CHR ''1''"
    by (simp add: strip_def one keep)
  moreover obtain k where "n = Suc k"
    using assms by (cases n) simp_all
  ultimately show ?thesis
    using assms one(3) by (simp add: py_int_def)
qed

lemma loaded_entry_unique:
  assumes "1 \<le> n" and "n \<le> int (length rows)"
  shows "load_row (n, rows ! nat (n - 1)) \<in> set (map load_row (zip [1..int (length rows)] rows))"
    and "\<forall>e\<in>set (map load_row (zip [1..int (length rows)] rows)).
           ID e = n \<longrightarrow> e = load_row (n, rows ! nat (n - 1))"
proof -
  let ?es = "map load_row (zip [1..int (length rows)] rows)"
  have len: "length ?es = length rows" by simp
  from assms have k: "nat (n - 1) < length rows" by linarith
  have "int (nat (n - 1)) + 1 = n" using assms by linarith
  then have item: "?es ! nat (n - 1) = load_row (n, rows ! nat (n - 1))"
    by (simp only: nth_loaded [OF k])
  from k len have "?es ! nat (n - 1) \<in> set ?es"
    by (intro nth_mem) simp
  with item show "load_row (n, rows ! nat (n - 1)) \<in> set ?es" by simp
  show "\<forall>e\<in>set ?es. ID e = n \<longrightarrow> e = load_row (n, rows ! nat (n - 1))"
  proof (intro ballI impI)
    fix e assume "e \<in> set ?es" and id: "ID e = n"
    then obtain j where j: "j < length rows" and e: "e = ?es ! j"
      unfolding in_set_conv_nth len by blast
    from e have e': "e = load_row (int j + 1, rows ! j)"
      by (simp only: nth_loaded [OF j])
    with id have "int j + 1 = n" by simp
    then have "j = nat (n - 1)" by linarith
    with e item show "e = load_row (n, rows ! nat (n - 1))" by simp
  qed
qed

text \<open>What \<^verbatim>\<open>access_item\<close> prints of a loaded entry, in terms of the row of the file.\<close>

lemma item_lines_loaded:
  "item_lines (load_row (n, r)) =
     [CHR 0x0A # ''Accessing: '' @ py_str (Title r),
      ''Authors: '' @ authors_str r,
      ''Type: '' @ py_str (Type r) @ '' | Format: '' @ py_str (Format r),
      ''Topic: '' @ py_str (Topic r),
      ''Publisher: '' @ py_str (Publisher r) @ '' ('' @ year_str (Year r) @ '')'']
     @ (if Subtitle r = NaN then [] else [''Subtitle: '' @ py_str (Subtitle r)])
     @ (case Free_Download r of
          None \<Rightarrow> []
        | Some v \<Rightarrow>
            if lower (py_str v) = ''yes'' \<or> lower (py_str v) = ''true''
            then ['' This item is available as a free download!''] else [])"
proof -
  have "notna c \<longleftrightarrow> c \<noteq> NaN" for c by (cases c) simp_all
  then show ?thesis
    by (simp add: item_lines_def free_download_is_def split: option.splits)
qed

lemma search_matches_map:
  assumes "\<And>e. Title (g e) = Title e" and "\<And>e. Authors (g e) = Authors e"
    and "\<And>e. Topic (g e) = Topic e" and "\<And>e. Subtitle (g e) = Subtitle e"
  shows "search_matches (Frame (map g es)) q = map_sum id (map g) (search_matches (Frame es) q)"
proof -
  have cols: "map Title (map g es) = map Title es" "map Topic (map g es) = map Topic es"
    "map Subtitle (map g es) = map Subtitle es"
    by (simp_all add: assms)
  have auth: "authors_contains (map g es) pat = authors_contains es pat" for pat
    by (simp add: authors_contains_def assms comp_def)
  show ?thesis
    unfolding search_matches_def frame.case cols auth
    by (simp add: select_map_rows split: sum.splits)
qed

lemma search_lines_map:
  assumes "\<And>e. ID (g e) = ID e" and "\<And>e. Title (g e) = Title e"
    and "\<And>e. Authors (g e) = Authors e" and "\<And>e. Topic (g e) = Topic e"
    and "\<And>e. Type (g e) = Type e" and "\<And>e. Format (g e) = Format e"
  shows "concat (map search_lines (map g ms)) = concat (map search_lines ms)"
proof -
  have "search_lines (g e) = search_lines e" for e
    by (simp add: search_lines_def authors_short_def assms)
  then show ?thesis by (simp add: comp_def)
qed

lemma loaded_is_legacy_with_year:
  "map load_row zs = map (\<lambda>e. e\<lparr>Year := StrV (year_str (Year e))\<rparr>) (map legacy_load_row zs)"
proof -
  have "load_row z = (legacy_load_row z)\<lparr>Year := StrV (year_str (Year (legacy_load_row z)))\<rparr>"
    for z
    by (cases z) (simp add: load_row_legacy)
  then show ?thesis by (simp add: comp_def)
qed

text \<open>
  When no row has a subtitle the column \<^verbatim>\<open>Subtitle\<close> holds no string, and the
  accessor \<^verbatim>\<open>.str\<close> of the fourth test raises, whatever the query.
\<close>

lemma search_without_subtitles:
  assumes "rows \<noteq> []"
    and "list_ex is_str (map Title rows)"
    and "list_ex is_str (map Topic rows)"
    and "\<not> list_ex is_str (map Subtitle rows)"
    and rx: "re_compile (lower q) = Inr rx"
  shows "search_matches (Frame rows) q
         = Inl (AttributeError ''Can only use .str accessor with string values!'')"
proof -
  have "str_contains (map Subtitle rows) (lower q)
        = Inl (AttributeError ''Can only use .str accessor with string values!'')"
    using assms(1,4) by (simp add: str_contains_def str_accessor_def)
  then show ?thesis
    unfolding search_matches_def
    by (simp add: str_contains_ok [OF _ rx] authors_contains_ok [OF assms(1) rx] assms(2,3))
qed

lemma search_no_subtitles:
  "search_matches
     (Frame (map load_row (zip [1..int (length no_subtitle_rows)] no_subtitle_rows))) ''code''
   = Inl (AttributeError ''Can only use .str accessor with string values!'')"
proof (rule search_without_subtitles)
  show "re_compile (lower ''code'') = Inr (map Lit ''code'')"
    by code_simp
qed (simp_all only: map_col_loaded, simp_all add: no_subtitle_rows_def sample_rows_def book_def)

section \<open>The claims\<close>

subsection \<open>Searching\<close>

text \<open>
  Claim C1 (the search is a case-insensitive substring match on title, authors, topic
  and subtitle, for every query). The code passes the query to pandas as a regular
  expression. On the sample catalogue, in which none of the four fields of any row
  contains a dot, the query \<^verbatim>\<open>.\<close> selects every row, where the substring match
  of the claim selects none.
\<close>

theorem search_dot_selects_every_row:
  "search_matches (df sample_library) ''.'' = Inr sample_entries
   \<and> sample_entries \<noteq> []
   \<and> filter (spec_search_hit ''.'') sample_entries = []"
  by (simp add: sample_library_df search_sample_dot no_dot_in_sample)
     (simp add: sample_entries_def)

text \<open>
  Claim C9 (a search returns each matching row once, in catalogue order). Whenever the
  search of a loaded catalogue returns, its result is the catalogue filtered by one
  test per row: a subsequence of the catalogue, with strictly increasing IDs, however
  many of the four fields match; and the rows are printed in that order.
\<close>

theorem search_once_in_catalogue_order:
  assumes "load_frame raws = Inr (Frame rows)"
    and "search_matches (Frame rows) q = Inr ms"
  shows "(\<exists>rx. re_compile (lower q) = Inr rx \<and> ms = filter (entry_matches rx) rows)
         \<and> subseq ms rows
         \<and> sorted_wrt (<) (map ID ms)
         \<and> distinct ms
         \<and> (ms \<noteq> [] \<longrightarrow>
              (\<exists>header. fst (search_books \<lparr>df = Frame rows\<rparr> q)
                 = Inr (header @ concat (map search_lines ms))))"
proof -
  from search_matches_Inr [OF assms(2)] obtain rx where
    rx: "re_compile (lower q) = Inr rx" and ms: "ms = filter (entry_matches rx) rows"
    by blast
  from assms(1) have rows: "rows = map load_row (zip [1..int (length raws)] raws)"
    by (simp add: load_frame_total)
  have ids: "sorted_wrt (<) (map ID rows)"
    unfolding rows map_ID_loaded by (rule sorted_upto_strict)
  have "sorted_wrt (\<lambda>x y. ID x < ID y) rows"
    using ids by (simp add: sorted_wrt_map)
  then have "sorted_wrt (\<lambda>x y. ID x < ID y) ms"
    unfolding ms by (rule sorted_wrt_filter)
  then have sorted_ms: "sorted_wrt (<) (map ID ms)"
    by (simp add: sorted_wrt_map)
  then have "distinct (map ID ms)"
    by (simp add: strict_sorted_iff)
  then have distinct_ms: "distinct ms"
    by (simp add: distinct_map)
  have sub: "subseq ms rows"
    unfolding ms by simp
  have printed: "ms \<noteq> [] \<longrightarrow>
      (\<exists>header. fst (search_books \<lparr>df = Frame rows\<rparr> q)
         = Inr (header @ concat (map search_lines ms)))"
    using assms(2) by (auto simp: search_books_def)
  from rx ms sub sorted_ms distinct_ms printed show ?thesis by blast
qed

theorem search_once_in_catalogue_order_witness:
  "search_matches (Frame sample_entries) ''SOFTWARE''
     = Inr [sample_entries ! 0, sample_entries ! 1]
   \<and> spec_field_contains ''SOFTWARE'' (Topic (sample_entries ! 0))
   \<and> spec_field_contains ''SOFTWARE'' (Subtitle (sample_entries ! 0))
   \<and> subseq [sample_entries ! 0, sample_entries ! 1] sample_entries
   \<and> sorted_wrt (<) (map ID [sample_entries ! 0, sample_entries ! 1])
   \<and> distinct [sample_entries ! 0, sample_entries ! 1]"
proof -
  have both: "spec_field_contains ''SOFTWARE'' (Topic (sample_entries ! 0))
              \<and> spec_field_contains ''SOFTWARE'' (Subtitle (sample_entries ! 0))"
    by code_simp
  from search_once_in_catalogue_order [OF load_frame_sample search_sample_software]
    both search_sample_software
  show ?thesis by blast
qed

subsection \<open>Listing\<close>

text \<open>
  Claim C6 (a filter keeps exactly the rows whose type contains it, case-insensitively).
  The filter too is read as a regular expression: on the sample catalogue, in which
  no type contains a dot, the filter \<^verbatim>\<open>.\<close> keeps every row.
\<close>

theorem filter_dot_keeps_every_row:
  "display_df (df sample_library) (Some ''.'') = Inr (Frame sample_entries)
   \<and> sample_entries \<noteq> []
   \<and> filter (\<lambda>row. spec_field_contains ''.'' (Type row)) sample_entries = []"
  by (simp add: sample_library_df display_sample_dot no_dot_in_sample_types)
     (simp add: sample_entries_def)

subsection \<open>Loading: years, authors, IDs, failures\<close>

text \<open>
  Claim C2 (the loader strips only an exact trailing \<^verbatim>\<open>.0\<close> from the year and
  passes a non-numeric string through unchanged). The loader removes every
  \<^verbatim>\<open>.0\<close> it finds: the year of the third sample row, the date string
  \<^verbatim>\<open>1999.05.01\<close>, has no trailing \<^verbatim>\<open>.0\<close> and is no number, so the claim leaves
  it as it is, and the loader turns it into \<^verbatim>\<open>199951\<close>.
\<close>

theorem year_inner_dot0_removed:
  "Year (sample_rows ! 2) = StrV ''1999.05.01''
   \<and> Year (load_row (3, sample_rows ! 2)) = StrV ''199951''
   \<and> spec_year (StrV ''1999.05.01'') = ''1999.05.01''
   \<and> year_str (StrV ''1999.05.01'') \<noteq> spec_year (StrV ''1999.05.01'')"
proof -
  have "spec_year (StrV ''1999.05.01'') = ''1999.05.01''"
    by code_simp
  moreover have "Year (sample_rows ! 2) = StrV ''1999.05.01''"
    by (simp add: sample_rows_def year_book)
  ultimately show ?thesis by (simp add: year_date)
qed

text \<open>
  Claim C3 (the collapsed authors are the non-empty, non-n/a values of the five author
  columns, in column order, joined by a comma and a space, or \<^verbatim>\<open>Unknown\<close> when
  there is none; never empty). Both loaders compute it, for every row whose author
  cells are strings or missing.
\<close>

theorem authors_collapse:
  "authors_str r = spec_authors r
   \<and> authors_str r \<noteq> []
   \<and> Authors (load_row (i, r)) = spec_authors r
   \<and> Authors (legacy_load_row (i, r)) = spec_authors r
   \<and> (\<exists>es. load_frame rows = Inr (Frame es) \<and> map Authors es = map spec_authors rows)"
proof -
  have eq: "authors_str r = spec_authors r" for r :: raw
    unfolding authors_str_def spec_authors_def joined_authors_Nil_iff
    by (simp add: joined_authors_spec)
  have "authors_str r \<noteq> []"
    by (simp add: authors_str_def)
  moreover have "authors_str = (spec_authors :: raw \<Rightarrow> string)"
    by (rule ext) (rule eq)
  then have "map Authors (map load_row (zip [1..int (length rows)] rows))
             = map spec_authors rows"
    by (simp only: map_col_loaded)
  ultimately show ?thesis
    by (simp add: eq load_frame_total)
qed

theorem authors_collapse_witness:
  "author_cols author_example_row
     = [Some ''Ada'', Some [], Some ''n/a'', None, Some ''Lovelace'']
   \<and> spec_authors author_example_row = ''Ada, Lovelace''
   \<and> Authors (load_row (1, author_example_row)) = ''Ada, Lovelace''
   \<and> Authors (legacy_load_row (1, author_example_row)) = ''Ada, Lovelace''
   \<and> author_cols no_author_row = [None, Some [], Some ''n/a'', None, None]
   \<and> spec_authors no_author_row = ''Unknown''"
proof -
  have c: "author_cols author_example_row
             = [Some ''Ada'', Some [], Some ''n/a'', None, Some ''Lovelace'']"
          "author_cols no_author_row = [None, Some [], Some ''n/a'', None, None]"
    by (simp_all add: author_example_row_def no_author_row_def author_cols_def book_def)
  from authors_collapse [of author_example_row 1 "[]"]
    authors_collapse [of no_author_row 2 "[]"] authors_ada authors_none c
  show ?thesis by simp
qed

text \<open>
  Claim C7 (after a load of N rows the IDs are 1 to N, each once, in the order of the
  rows, and stay so). When the file is read, the loaded frame has one entry per row,
  the entry at position k is built from row k and has ID k + 1, and no query changes
  the frame.
\<close>

theorem ids_one_to_N:
  assumes "read_table fs p = Inr rows"
  shows "\<exists>es. load_library_data fs p = (Frame es, [])
           \<and> length es = length rows
           \<and> map ID es = [1..int (length rows)]
           \<and> distinct (map ID es)
           \<and> (\<forall>k<length rows. es ! k = load_row (int k + 1, rows ! k)
                                \<and> ID (es ! k) = int k + 1)
           \<and> df (snd (display_inventory \<lparr>df = Frame es\<rparr> f)) = Frame es
           \<and> df (snd (search_books \<lparr>df = Frame es\<rparr> q)) = Frame es
           \<and> df (snd (access_item \<lparr>df = Frame es\<rparr> s)) = Frame es
           \<and> df (snd (get_types \<lparr>df = Frame es\<rparr>)) = Frame es"
proof -
  let ?es = "map load_row (zip [1..int (length rows)] rows)"
  have loaded: "load_library_data fs p = (Frame ?es, [])"
    using assms by (simp add: load_library_data_def load_body_def load_frame_total)
  have len: "length ?es = length rows"
    by simp
  have ids: "map ID ?es = [1..int (length rows)]"
    by (rule map_ID_loaded)
  have dist: "distinct (map ID ?es)"
    unfolding ids by simp
  have nth: "\<forall>k<length rows. ?es ! k = load_row (int k + 1, rows ! k)
                               \<and> ID (?es ! k) = int k + 1"
    by (simp add: nth_loaded del: nth_map nth_zip)
  have q1: "df (snd (display_inventory \<lparr>df = Frame ?es\<rparr> f)) = Frame ?es"
    by (simp add: display_inventory_def split: sum.splits frame.splits)
  have q2: "df (snd (search_books \<lparr>df = Frame ?es\<rparr> q)) = Frame ?es"
    by (simp add: search_books_def split: sum.splits)
  have q3: "df (snd (access_item \<lparr>df = Frame ?es\<rparr> s)) = Frame ?es"
    by (simp add: access_item_def split: option.splits list.splits)
  have q4: "df (snd (get_types \<lparr>df = Frame ?es\<rparr>)) = Frame ?es"
    by (simp add: get_types_def)
  from loaded len ids dist nth q1 q2 q3 q4 show ?thesis
    by blast
qed

theorem ids_one_to_N_witness:
  "read_table sample_files ''data/justLib.csv'' = Inr sample_rows
   \<and> load_library_data sample_files ''data/justLib.csv'' = (Frame sample_entries, [])
   \<and> map ID sample_entries = [1, 2, 3]
   \<and> distinct (map ID sample_entries)"
proof -
  have n: "length sample_rows = 3"
    by (simp add: sample_rows_def)
  from ids_one_to_N [OF read_sample] obtain es where
    "load_library_data sample_files ''data/justLib.csv'' = (Frame es, [])"
    "map ID es = [1..int (length sample_rows)]" "distinct (map ID es)"
    by blast
  then show ?thesis
    by (simp add: read_sample load_sample n upto_1_3)
qed

text \<open>
  Claim C5 (a load that fails leaves an empty store and raises nothing). The loader is
  total: for a suffix other than \<^verbatim>\<open>.xlsx\<close> and \<^verbatim>\<open>.csv\<close>, and for a file whose
  reading raises, it prints the message and returns the frame without columns, which
  is empty; so is the \<^verbatim>\<open>df\<close> of the object then built.
\<close>

theorem load_failure_leaves_empty_store:
  "(path_suffix p \<noteq> ''.xlsx'' \<and> path_suffix p \<noteq> ''.csv'' \<longrightarrow>
      load_library_data fs p
      = (NoColumns, [''Error loading file: Unsupported file format. Use .xlsx or .csv'']))
   \<and> (read_table fs p = Inl e \<longrightarrow>
      load_library_data fs p = (NoColumns, [''Error loading file: '' @ exn_message e]))
   \<and> ((path_suffix p \<noteq> ''.xlsx'' \<and> path_suffix p \<noteq> ''.csv'') \<or> read_table fs p = Inl e \<longrightarrow>
      df_empty (fst (load_library_data fs p))
      \<and> df_empty (df (fst (LivingLibrary fs p))))"
proof -
  have unsupported: "path_suffix p \<noteq> ''.xlsx'' \<and> path_suffix p \<noteq> ''.csv'' \<longrightarrow>
      read_table fs p = Inl (ValueError ''Unsupported file format. Use .xlsx or .csv'')"
    by (simp add: read_table_def)
  have failed: "read_table fs p = Inl x \<longrightarrow>
      load_library_data fs p = (NoColumns, [''Error loading file: '' @ exn_message x])" for x
    by (simp add: load_library_data_def load_body_def)
  have obj: "df (fst (LivingLibrary fs p)) = fst (load_library_data fs p)"
    by (simp add: LivingLibrary_def split: prod.splits)
  from unsupported failed [of e]
    failed [of "ValueError ''Unsupported file format. Use .xlsx or .csv''"] obj
  show ?thesis by auto
qed

theorem load_failure_leaves_empty_store_witness:
  "path_suffix ''catalog.json'' \<noteq> ''.xlsx'' \<and> path_suffix ''catalog.json'' \<noteq> ''.csv''
   \<and> df_empty (fst (load_library_data sample_files ''catalog.json''))
   \<and> read_table sample_files ''broken.csv'' = Inl (ReadError ''No such file'')
   \<and> load_library_data sample_files ''broken.csv''
      = (NoColumns, [''Error loading file: No such file''])
   \<and> df_empty (df (fst (LivingLibrary sample_files ''broken.csv'')))"
proof -
  have j: "path_suffix ''catalog.json'' = ''.json''" by code_simp
  have c: "path_suffix ''broken.csv'' = ''.csv''" by code_simp
  have r: "read_table sample_files ''broken.csv'' = Inl (ReadError ''No such file'')"
    by (simp add: read_table_def c sample_files_def)
  from load_failure_leaves_empty_store
         [of "''catalog.json''" sample_files "ReadError ''No such file''"]
       load_failure_leaves_empty_store
         [of "''broken.csv''" sample_files "ReadError ''No such file''"] j r
  show ?thesis by simp
qed

subsection \<open>Looking an item up\<close>

text \<open>
  Claim C4 (an input that is no integer gives the format error, an integer that is no
  loaded ID gives the not-found error, an integer that is a loaded ID gives that entry,
  and nothing is raised). On a loaded catalogue \<^verbatim>\<open>access_item\<close> returns, for every
  string: the pair \<^verbatim>\<open>(-1, "Please enter a valid item ID number")\<close> when \<^verbatim>\<open>int\<close>
  rejects the string; the different pair \<^verbatim>\<open>(-1, "Invalid item ID")\<close> when the
  integer is not among the IDs 1 to N; and otherwise \<^verbatim>\<open>(0, "Item details displayed")\<close>
  after printing the one entry with that ID: the title, the collapsed authors, the
  type and format, the topic, the publisher with the normalised year, the subtitle
  when there is one, and the note on a free download, of the row of the file at that
  position.
\<close>

theorem access_item_contract:
  assumes "load_frame rows = Inr d"
  shows "access_item \<lparr>df = d\<rparr> s =
           (case py_int s of
              None \<Rightarrow> (Inr ((- 1, ''Please enter a valid item ID number''), []), \<lparr>df = d\<rparr>)
            | Some n \<Rightarrow>
                if 1 \<le> n \<and> n \<le> int (length rows)
                then (Inr ((0, ''Item details displayed''),
                           [CHR 0x0A # ''Accessing: '' @ py_str (Title (rows ! nat (n - 1))),
                            ''Authors: '' @ authors_str (rows ! nat (n - 1)),
                            ''Type: '' @ py_str (Type (rows ! nat (n - 1)))
                              @ '' | Format: '' @ py_str (Format (rows ! nat (n - 1))),
                            ''Topic: '' @ py_str (Topic (rows ! nat (n - 1))),
                            ''Publisher: '' @ py_str (Publisher (rows ! nat (n - 1)))
                              @ '' ('' @ year_str (Year (rows ! nat (n - 1))) @ '')'']
                           @ (if Subtitle (rows ! nat (n - 1)) = NaN then []
                              else [''Subtitle: '' @ py_str (Subtitle (rows ! nat (n - 1)))])
                           @ (case Free_Download (rows ! nat (n - 1)) of
                                None \<Rightarrow> []
                              | Some v \<Rightarrow>
                                  if lower (py_str v) = ''yes'' \<or> lower (py_str v) = ''true''
                                  then ['' This item is available as a free download!'']
                                  else [])),
                      \<lparr>df = d\<rparr>)
                else (Inr ((- 1, ''Invalid item ID''), []), \<lparr>df = d\<rparr>))
         \<and> (\<exists>r. fst (access_item \<lparr>df = d\<rparr> s) = Inr r)
         \<and> (1 \<le> m \<and> m \<le> int (length rows) \<longrightarrow>
              (\<exists>es. d = Frame es
                 \<and> load_row (m, rows ! nat (m - 1)) \<in> set es
                 \<and> (\<forall>e\<in>set es. ID e = m \<longrightarrow> e = load_row (m, rows ! nat (m - 1)))))
         \<and> (- 1 :: int, ''Please enter a valid item ID number'') \<noteq> (- 1, ''Invalid item ID'')"
proof -
  from assms have d: "d = Frame (map load_row (zip [1..int (length rows)] rows))"
    by (simp add: load_frame_total)
  have outcome: "access_item \<lparr>df = d\<rparr> s =
           (case py_int s of
              None \<Rightarrow> (Inr ((- 1, ''Please enter a valid item ID number''), []), \<lparr>df = d\<rparr>)
            | Some n \<Rightarrow>
                if 1 \<le> n \<and> n \<le> int (length rows)
                then (Inr ((0, ''Item details displayed''),
                           item_lines (load_row (n, rows ! nat (n - 1)))), \<lparr>df = d\<rparr>)
                else (Inr ((- 1, ''Invalid item ID''), []), \<lparr>df = d\<rparr>))"
    unfolding d by (rule access_item_loaded)
  have returns: "\<exists>r. fst (access_item \<lparr>df = d\<rparr> s) = Inr r"
    unfolding outcome by (simp split: option.splits)
  have single: "1 \<le> m \<and> m \<le> int (length rows) \<longrightarrow>
      (\<exists>es. d = Frame es
         \<and> load_row (m, rows ! nat (m - 1)) \<in> set es
         \<and> (\<forall>e\<in>set es. ID e = m \<longrightarrow> e = load_row (m, rows ! nat (m - 1))))"
    unfolding d using loaded_entry_unique [of m rows] by blast
  from outcome returns single show ?thesis
    by (simp only: item_lines_loaded) simp
qed

theorem access_item_contract_witness:
  "load_frame sample_rows = Inr (Frame sample_entries)
   \<and> fst (access_item sample_library ''abc'')
     = Inr ((- 1, ''Please enter a valid item ID number''), [])
   \<and> fst (access_item sample_library [CHR 0x1C, CHR ''3''])
     = Inr ((- 1, ''Please enter a valid item ID number''), [])
   \<and> fst (access_item sample_library ''9999'') = Inr ((- 1, ''Invalid item ID''), [])
   \<and> fst (access_item sample_library ''3'')
     = Inr ((0, ''Item details displayed''),
            [CHR 0x0A # ''Accessing: Deep Work'',
             ''Authors: Cal Newport'',
             ''Type: Book | Format: PDF'',
             ''Topic: Productivity'',
             ''Publisher: Press (199951)'',
             ''Subtitle: Rules for Focus''])
   \<and> sample_entries ! 2 \<in> set sample_entries
   \<and> ID (sample_entries ! 2) = 3"
proof -
  have p1: "py_int ''abc'' = None" by code_simp
  have p2: "py_int ''9999'' = Some 9999" by code_simp
  have p3: "py_int ''3'' = Some 3" by code_simp
  have n: "length sample_rows = 3" by (simp add: sample_rows_def)
  have e: "load_row (3, sample_rows ! 2) = sample_entries ! 2"
    by (simp add: sample_rows_def sample_entries_def load_row_def authors_cal year_date
        year_book)
  have two: "nat (3 - 1) = 2" by simp
  have r: "sample_rows ! 2 = book ''Deep Work'' ''Rules for Focus''
             [Some ''Cal Newport'', None, None, None, None] ''Productivity''
             (StrV ''1999.05.01'')"
    by (simp add: sample_rows_def)
  have shown: "Title (sample_rows ! 2) = StrV ''Deep Work''"
    "authors_str (sample_rows ! 2) = ''Cal Newport''"
    "Type (sample_rows ! 2) = StrV ''Book''" "Format (sample_rows ! 2) = StrV ''PDF''"
    "Topic (sample_rows ! 2) = StrV ''Productivity''"
    "Publisher (sample_rows ! 2) = StrV ''Press''"
    "year_str (Year (sample_rows ! 2)) = ''199951''"
    "Subtitle (sample_rows ! 2) = StrV ''Rules for Focus''"
    "Free_Download (sample_rows ! 2) = None"
    unfolding r by (simp_all add: authors_cal year_date year_book) (simp_all add: book_def)
  have i: "ID (sample_entries ! 2) = 3"
    by (simp add: sample_entries_def raw.defs entry.defs)
  from access_item_contract [OF load_frame_sample, of "''abc''" 3]
    access_item_contract [OF load_frame_sample, of "[CHR 0x1C, CHR ''3'']" 3]
    access_item_contract [OF load_frame_sample, of "''9999''" 3]
    access_item_contract [OF load_frame_sample, of "''3''" 3]
  show ?thesis
    by (simp add: p1 p2 p3 py_int_separator n e two sample_library_eq shown i
        load_frame_sample)
qed

subsection \<open>The store is only read\<close>

text \<open>
  Claim C8 (no query changes the store; listing twice gives the same; a filtered
  listing is a subsequence of the full one). Every method returns the object it was
  given; \<^verbatim>\<open>display_inventory\<close> without a filter shows the whole frame, twice the
  same; and whatever a filter keeps is a subsequence of the rows of the frame.
\<close>

theorem queries_leave_store_unchanged:
  "snd (display_inventory self f) = self
   \<and> snd (search_books self q) = self
   \<and> snd (access_item self s) = self
   \<and> snd (get_types self) = self
   \<and> display_inventory (snd (display_inventory self None)) None = display_inventory self None
   \<and> display_df (df self) None = Inr (df self)
   \<and> (df self = Frame rows \<and> display_df (df self) (Some t) = Inr shown \<longrightarrow>
        (\<exists>kept. shown = Frame kept \<and> subseq kept rows))"
proof -
  have q1: "snd (display_inventory self f) = self" for f
    by (simp add: display_inventory_def split: sum.splits frame.splits)
  have q2: "snd (search_books self q) = self"
    by (simp add: search_books_def split: sum.splits)
  have q3: "snd (access_item self s) = self"
    by (simp add: access_item_def split: option.splits frame.splits list.splits)
  have q4: "snd (get_types self) = self"
    by (simp add: get_types_def split: frame.splits)
  have whole: "display_df (df self) None = Inr (df self)"
    by (simp add: display_df_def)
  have sub: "df self = Frame rows \<and> display_df (df self) (Some t) = Inr shown \<longrightarrow>
      (\<exists>kept. shown = Frame kept \<and> subseq kept rows)"
    by (auto simp: display_df_def subseq_select split: if_splits sum.splits)
  from q1 q2 q3 q4 whole sub show ?thesis by simp
qed

theorem queries_leave_store_unchanged_witness:
  "df sample_library = Frame sample_entries
   \<and> display_df (df sample_library) (Some ''book'') = Inr (Frame sample_entries)
   \<and> display_df (df sample_library) None = Inr (Frame sample_entries)
   \<and> subseq sample_entries sample_entries
   \<and> snd (display_inventory sample_library (Some ''book'')) = sample_library"
proof -
  have d: "df sample_library = Frame sample_entries"
    by (rule sample_library_df)
  have b: "display_df (df sample_library) (Some ''book'') = Inr (Frame sample_entries)"
    by (simp only: d display_sample_book)
  from queries_leave_store_unchanged
         [of sample_library "Some ''book''" "[]" "[]" sample_entries "''book''"
             "Frame sample_entries"] d b
  show ?thesis by simp
qed

subsection \<open>The two scripts\<close>

text \<open>
  Claim C10 (the search of the legacy script and the search of the current script
  select the same entries in the same order). The two methods are the same function
  of the frame and the query; and on the frames that the two loaders build from one
  file, which differ in the column \<^verbatim>\<open>Year\<close> only, the two searches raise the same
  exception or select the rows with the same IDs in the same order, and print the same.
\<close>

theorem legacy_search_is_current_search:
  "legacy_search_matches d q = search_matches d q
   \<and> legacy_search_books self q = search_books self q
   \<and> map_sum id (map ID) (legacy_search_matches (fst (legacy_load_library_data fs p)) q)
     = map_sum id (map ID) (search_matches (fst (load_library_data fs p)) q)
   \<and> fst (legacy_search_books (fst (legacy_LivingLibrary fs p)) q)
     = fst (search_books (fst (LivingLibrary fs p)) q)"
proof -
  have same: "legacy_search_matches d q = search_matches d q" for d
    by (simp add: legacy_search_matches_def search_matches_def)
  have same_books: "legacy_search_books self q = search_books self q" for self
    by (simp add: legacy_search_books_def search_books_def same)
  let ?g = "\<lambda>e :: entry. e\<lparr>Year := StrV (year_str (Year e))\<rparr>"
  have frames:
    "(fst (legacy_load_library_data fs p) = NoColumns \<and> fst (load_library_data fs p) = NoColumns)
     \<or> (\<exists>es. fst (legacy_load_library_data fs p) = Frame es
              \<and> fst (load_library_data fs p) = Frame (map ?g es))"
  proof (cases "read_table fs p")
    case (Inl e)
    then show ?thesis
      by (simp add: legacy_load_library_data_def legacy_load_body_def
          load_library_data_def load_body_def)
  next
    case (Inr rows)
    then show ?thesis
      by (simp add: legacy_load_library_data_def legacy_load_body_def
          load_library_data_def load_body_def load_frame_total
          loaded_is_legacy_with_year [of "zip [1..int (length rows)] rows"]
          del: map_map)
  qed
  have moved: "search_matches (Frame (map ?g es)) q
               = map_sum id (map ?g) (search_matches (Frame es) q)" for es
    by (rule search_matches_map) simp_all
  have lines: "concat (map search_lines (map ?g ms)) = concat (map search_lines ms)" for ms
    by (rule search_lines_map) simp_all
  have ids: "map_sum id (map ID) (legacy_search_matches (fst (legacy_load_library_data fs p)) q)
             = map_sum id (map ID) (search_matches (fst (load_library_data fs p)) q)"
    using frames
  proof
    assume "fst (legacy_load_library_data fs p) = NoColumns
            \<and> fst (load_library_data fs p) = NoColumns"
    then show ?thesis by (simp add: same)
  next
    assume "\<exists>es. fst (legacy_load_library_data fs p) = Frame es
                 \<and> fst (load_library_data fs p) = Frame (map ?g es)"
    then obtain es where "fst (legacy_load_library_data fs p) = Frame es"
      and "fst (load_library_data fs p) = Frame (map ?g es)" by blast
    then show ?thesis
      by (cases "search_matches (Frame es) q") (simp_all add: same moved comp_def)
  qed
  have objs: "fst (legacy_LivingLibrary fs p) = \<lparr>df = fst (legacy_load_library_data fs p)\<rparr>"
    "fst (LivingLibrary fs p) = \<lparr>df = fst (load_library_data fs p)\<rparr>"
    by (simp_all add: legacy_LivingLibrary_def LivingLibrary_def split: prod.splits)
  have printed: "fst (legacy_search_books (fst (legacy_LivingLibrary fs p)) q)
                 = fst (search_books (fst (LivingLibrary fs p)) q)"
    using frames
  proof
    assume "fst (legacy_load_library_data fs p) = NoColumns
            \<and> fst (load_library_data fs p) = NoColumns"
    then show ?thesis by (simp add: objs same_books)
  next
    assume "\<exists>es. fst (legacy_load_library_data fs p) = Frame es
                 \<and> fst (load_library_data fs p) = Frame (map ?g es)"
    then obtain es where "fst (legacy_load_library_data fs p) = Frame es"
      and "fst (load_library_data fs p) = Frame (map ?g es)" by blast
    then show ?thesis
      by (cases "search_matches (Frame es) q")
         (simp_all add: objs same_books search_books_def moved lines del: map_map)
  qed
  from same same_books ids printed show ?thesis by simp
qed

end
